theory Spec2Isabelle
  imports Complex_Main "HOL-Library.Word" "HOL-Library.AList"
begin

unbundle bit_operations_syntax

section \<open>Library functions the agent relies on\<close>

text \<open>
  Go strings are byte sequences, as \<^typ>\<open>string\<close> is. A \<open>net.IP\<close> enters every function
  modelled here only through \<open>ip.String()\<close> (registry key, session key, fingerprint base,
  template substitution), so an IP is represented by that text.
\<close>

type_synonym ip = string

subsection \<open>SHA-256 (FIPS 180-4), as \<open>crypto/sha256.Sum256\<close> computes it\<close>

type_synonym u32 = "32 word"
type_synonym byte = "8 word"

definition rotr :: "nat \<Rightarrow> u32 \<Rightarrow> u32" where
  "rotr n x = (drop_bit n x) OR (push_bit (32 - n) x)"

definition Ch :: "u32 \<Rightarrow> u32 \<Rightarrow> u32 \<Rightarrow> u32" where
  "Ch x y z = (x AND y) XOR (NOT x AND z)"

definition Maj :: "u32 \<Rightarrow> u32 \<Rightarrow> u32 \<Rightarrow> u32" where
  "Maj x y z = (x AND y) XOR (x AND z) XOR (y AND z)"

definition bsig0 :: "u32 \<Rightarrow> u32" where
  "bsig0 x = rotr 2 x XOR rotr 13 x XOR rotr 22 x"

definition bsig1 :: "u32 \<Rightarrow> u32" where
  "bsig1 x = rotr 6 x XOR rotr 11 x XOR rotr 25 x"

definition ssig0 :: "u32 \<Rightarrow> u32" where
  "ssig0 x = rotr 7 x XOR rotr 18 x XOR drop_bit 3 x"

definition ssig1 :: "u32 \<Rightarrow> u32" where
  "ssig1 x = rotr 17 x XOR rotr 19 x XOR drop_bit 10 x"

text \<open>
  The round constants are, by the standard's definition, the first 32 bits of the
  fractional parts of the cube roots of the first sixty-four primes. They are computed
  from that definition: the integer cube root of \<open>p * 2 ^ 96\<close>, cut to 32 bits.
\<close>

definition is_prime :: "int \<Rightarrow> bool" where
  "is_prime n = (1 < n \<and> list_all (\<lambda>d. n mod d \<noteq> 0) [2..n - 1])"

definition first_primes :: "int list" where
  "first_primes = filter is_prime [2..311]"

definition icbrt :: "int \<Rightarrow> int" where
  "icbrt n =
     foldl (\<lambda>r b. if (r + 2 ^ b) ^ 3 \<le> n then r + 2 ^ b else r) 0 (rev [0..<35])"

definition sha256_K :: "u32 list" where
  "sha256_K = map (\<lambda>p. word_of_int (icbrt (p * 2 ^ 96))) first_primes"

type_synonym sha_state = "u32 \<times> u32 \<times> u32 \<times> u32 \<times> u32 \<times> u32 \<times> u32 \<times> u32"

definition sha256_init :: sha_state where
  "sha256_init =
   (0x6a09e667, 0xbb67ae85, 0x3c6ef372, 0xa54ff53a, 0x510e527f, 0x9b05688c, 0x1f83d9ab, 0x5be0cd19)"

text \<open>Big-endian packing of four bytes into a word and back.\<close>

definition be32 :: "byte \<Rightarrow> byte \<Rightarrow> byte \<Rightarrow> byte \<Rightarrow> u32" where
  "be32 a b c d = push_bit 24 (ucast a) OR push_bit 16 (ucast b) OR push_bit 8 (ucast c) OR ucast d"

definition u32_bytes :: "u32 \<Rightarrow> byte list" where
  "u32_bytes w = [ucast (drop_bit 24 w), ucast (drop_bit 16 w), ucast (drop_bit 8 w), ucast w]"

fun words_of :: "byte list \<Rightarrow> u32 list" where
  "words_of (a # b # c # d # rest) = be32 a b c d # words_of rest"
| "words_of _ = []"

text \<open>Padding: the byte 0x80, zero bytes up to 56 modulo 64, the bit length in 64 bits.\<close>

definition len_bytes :: "nat \<Rightarrow> byte list" where
  "len_bytes n =
     (let w = (of_nat n :: 64 word)
      in map (\<lambda>i. ucast (drop_bit (8 * i) w)) [7, 6, 5, 4, 3, 2, 1, 0])"

definition sha256_pad :: "byte list \<Rightarrow> byte list" where
  "sha256_pad m =
     m @ [0x80] @ replicate ((119 - length m mod 64) mod 64) 0 @ len_bytes (8 * length m)"

text \<open>The message schedule: sixteen block words extended to sixty-four.\<close>

fun extend :: "nat \<Rightarrow> u32 list \<Rightarrow> u32 list" where
  "extend 0 ws = ws"
| "extend (Suc n) ws =
     (let l = length ws
      in extend n (ws @ [ssig1 (ws ! (l - 2)) + ws ! (l - 7) + ssig0 (ws ! (l - 15)) + ws ! (l - 16)]))"

definition sha_round :: "sha_state \<Rightarrow> u32 \<times> u32 \<Rightarrow> sha_state" where
  "sha_round s kw =
     (case s of (a, b, c, d, e, f, g, h) \<Rightarrow>
        (let t1 = h + bsig1 e + Ch e f g + fst kw + snd kw;
             t2 = bsig0 a + Maj a b c
         in (t1 + t2, a, b, c, d + t1, e, f, g)))"

definition sha_add :: "sha_state \<Rightarrow> sha_state \<Rightarrow> sha_state" where
  "sha_add s t =
     (case s of (a, b, c, d, e, f, g, h) \<Rightarrow>
      case t of (a', b', c', d', e', f', g', h') \<Rightarrow>
        (a + a', b + b', c + c', d + d', e + e', f + f', g + g', h + h'))"

definition sha_block :: "sha_state \<Rightarrow> byte list \<Rightarrow> sha_state" where
  "sha_block s blk = sha_add s (foldl sha_round s (zip sha256_K (extend 48 (words_of blk))))"

fun sha_blocks :: "nat \<Rightarrow> sha_state \<Rightarrow> byte list \<Rightarrow> sha_state" where
  "sha_blocks 0 s bs = s"
| "sha_blocks (Suc n) s bs = sha_blocks n (sha_block s (take 64 bs)) (drop 64 bs)"

definition sha_bytes :: "sha_state \<Rightarrow> byte list" where
  "sha_bytes s =
     (case s of (a, b, c, d, e, f, g, h) \<Rightarrow>
        u32_bytes a @ u32_bytes b @ u32_bytes c @ u32_bytes d @
        u32_bytes e @ u32_bytes f @ u32_bytes g @ u32_bytes h)"

definition Sum256 :: "byte list \<Rightarrow> byte list" where
  "Sum256 m = (let p = sha256_pad m in sha_bytes (sha_blocks (length p div 64) sha256_init p))"

subsection \<open>\<open>encoding/hex.EncodeToString\<close>, \<open>[]byte(s)\<close>, \<open>strings.ReplaceAll\<close>, \<open>strings.ToLower\<close>\<close>

definition hexdigits :: string where
  "hexdigits = ''0123456789abcdef''"

definition hex_byte :: "byte \<Rightarrow> string" where
  "hex_byte b = [hexdigits ! (unat b div 16), hexdigits ! (unat b mod 16)]"

definition EncodeToString :: "byte list \<Rightarrow> string" where
  "EncodeToString bs = concat (map hex_byte bs)"

definition bytes_of :: "string \<Rightarrow> byte list" where
  "bytes_of s = map (\<lambda>c. of_nat (of_char c)) s"

text \<open>
  \<open>strings.ReplaceAll s old new\<close> for a non-empty \<open>old\<close>: the non-overlapping occurrences
  are replaced from left to right. The agent calls it with the two constant placeholders
  only; for an empty \<open>old\<close> (never passed) the text is returned as it is.
\<close>

function ReplaceAll :: "string \<Rightarrow> string \<Rightarrow> string \<Rightarrow> string" where
  "ReplaceAll s old new =
     (if s = [] \<or> old = [] then s
      else if take (length old) s = old then new @ ReplaceAll (drop (length old) s) old new
      else hd s # ReplaceAll (tl s) old new)"
  by pat_completeness auto
termination
  by (relation "measure (\<lambda>(s, old, new). length s)") (auto simp: neq_Nil_conv)

declare ReplaceAll.simps [simp del]

text \<open>
  \<open>strings.ToLower\<close>, exact wherever its result is ASCII text. The letters A to Z become a
  to z, and the two other runes whose lower case is an ASCII letter, U+0130 and U+212A
  (in UTF-8 the bytes C4 B0 and E2 84 AA), become i and k. Every other byte from 0x80 on
  is kept, where Go writes the lower-case rune or, for invalid UTF-8, U+FFFD: bytes from
  0x80 on in both. So the result equals a given ASCII word here exactly if it does in Go,
  and the agent does nothing with the result but compare it with ASCII words.
\<close>

definition lower_char :: "char \<Rightarrow> char" where
  "lower_char c =
     (let n = (of_char c :: nat) in if 65 \<le> n \<and> n \<le> 90 then char_of (n + 32) else c)"

fun ToLower :: "string \<Rightarrow> string" where
  "ToLower (a # b # c # rest) =
     (if of_char a = (0xE2 :: nat) \<and> of_char b = (0x84 :: nat) \<and> of_char c = (0xAA :: nat)
      then CHR ''k'' # ToLower rest
      else if of_char a = (0xC4 :: nat) \<and> of_char b = (0xB0 :: nat)
      then CHR ''i'' # ToLower (c # rest)
      else lower_char a # ToLower (b # c # rest))"
| "ToLower [a, b] =
     (if of_char a = (0xC4 :: nat) \<and> of_char b = (0xB0 :: nat) then ''i''
      else [lower_char a, lower_char b])"
| "ToLower [a] = [lower_char a]"
| "ToLower [] = []"

subsection \<open>\<open>float64\<close>: IEEE 754 binary64 arithmetic\<close>

text \<open>
  A \<open>float64\<close> is a finite number, an infinity or NaN. A finite value is given by the
  number it stands for; the two zeros are one value (no operation of the agent tells them
  apart: it never divides by a zero, and comparisons treat them as equal), and so are
  all NaNs.
\<close>

datatype float64 = Num real | PosInf | NegInf | NaN

text \<open>
  \<open>rnd\<close> rounds a real number to binary64, to nearest with ties to even: 53 significant
  bits, the least exponent -1022 (below it the spacing stays \<open>2 ^ -1074\<close>), infinity from
  \<open>2 ^ 1024\<close> on after rounding. \<open>ilog2\<close> is the binary exponent of a positive number,
  computed on integers.
\<close>

function bitlength :: "int \<Rightarrow> int" where
  "bitlength n = (if n \<le> 0 then 0 else 1 + bitlength (n div 2))"
  by pat_completeness auto
termination
  by (relation "measure nat") auto

declare bitlength.simps [simp del]

definition pow2 :: "int \<Rightarrow> real" where
  "pow2 e = (if 0 \<le> e then 2 ^ nat e else 1 / 2 ^ nat (- e))"

definition ilog2 :: "real \<Rightarrow> int" where
  "ilog2 a = (if 1 \<le> a then bitlength \<lfloor>a\<rfloor> - 1 else - bitlength (\<lceil>1 / a\<rceil> - 1))"

definition roundEven :: "real \<Rightarrow> int" where
  "roundEven m =
     (let f = \<lfloor>m\<rfloor>; d = m - of_int f
      in if d < 1 / 2 then f else if 1 / 2 < d then f + 1 else if even f then f else f + 1)"

definition rnd :: "real \<Rightarrow> float64" where
  "rnd x =
     (if x = 0 then Num 0
      else let a = \<bar>x\<bar>;
               e = max (ilog2 a) (- 1022);
               q = pow2 (e - 52);
               r = of_int (roundEven (a / q)) * q
           in if 2 ^ 1024 \<le> r then (if x < 0 then NegInf else PosInf)
              else Num (sgn x * r))"

text \<open>
  Addition, multiplication, division and \<open>>\<close> of the language: the rounded exact result
  on finite numbers, the IEEE rules on infinities and NaN. A quotient by zero takes the
  sign of the dividend.
\<close>

fun fadd :: "float64 \<Rightarrow> float64 \<Rightarrow> float64" where
  "fadd (Num x) (Num y) = rnd (x + y)"
| "fadd NaN _ = NaN"
| "fadd _ NaN = NaN"
| "fadd PosInf NegInf = NaN"
| "fadd NegInf PosInf = NaN"
| "fadd PosInf _ = PosInf"
| "fadd NegInf _ = NegInf"
| "fadd _ PosInf = PosInf"
| "fadd _ NegInf = NegInf"

definition fneg :: "float64 \<Rightarrow> float64" where
  "fneg a = (case a of Num x \<Rightarrow> Num (- x) | PosInf \<Rightarrow> NegInf | NegInf \<Rightarrow> PosInf | NaN \<Rightarrow> NaN)"

definition infOf :: "bool \<Rightarrow> float64" where
  "infOf negative = (if negative then NegInf else PosInf)"

fun fmul :: "float64 \<Rightarrow> float64 \<Rightarrow> float64" where
  "fmul (Num x) (Num y) = rnd (x * y)"
| "fmul NaN _ = NaN"
| "fmul _ NaN = NaN"
| "fmul PosInf (Num y) = (if y = 0 then NaN else infOf (y < 0))"
| "fmul NegInf (Num y) = (if y = 0 then NaN else infOf (0 < y))"
| "fmul (Num x) PosInf = (if x = 0 then NaN else infOf (x < 0))"
| "fmul (Num x) NegInf = (if x = 0 then NaN else infOf (0 < x))"
| "fmul PosInf PosInf = PosInf"
| "fmul NegInf NegInf = PosInf"
| "fmul PosInf NegInf = NegInf"
| "fmul NegInf PosInf = NegInf"

fun fdiv :: "float64 \<Rightarrow> float64 \<Rightarrow> float64" where
  "fdiv (Num x) (Num y) =
     (if y = 0 then (if x = 0 then NaN else infOf (x < 0)) else rnd (x / y))"
| "fdiv NaN _ = NaN"
| "fdiv _ NaN = NaN"
| "fdiv (Num x) PosInf = Num 0"
| "fdiv (Num x) NegInf = Num 0"
| "fdiv PosInf (Num y) = infOf (y < 0)"
| "fdiv NegInf (Num y) = infOf (0 \<le> y)"
| "fdiv PosInf _ = NaN"
| "fdiv NegInf _ = NaN"

fun fgt :: "float64 \<Rightarrow> float64 \<Rightarrow> bool" where
  "fgt (Num x) (Num y) = (y < x)"
| "fgt NaN _ = False"
| "fgt _ NaN = False"
| "fgt PosInf PosInf = False"
| "fgt PosInf _ = True"
| "fgt _ PosInf = False"
| "fgt NegInf _ = False"
| "fgt _ NegInf = True"

text \<open>
  \<open>float64(n)\<close> of an integer, and \<open>math.Round\<close>: the nearest integer, halves away from
  zero, exact on every finite value; infinities and NaN are returned as they are.
\<close>

definition fromInt :: "int \<Rightarrow> float64" where
  "fromInt n = rnd (of_int n)"

fun Round :: "float64 \<Rightarrow> float64" where
  "Round (Num x) = Num (sgn x * of_int \<lfloor>\<bar>x\<bar> + 1 / 2\<rfloor>)"
| "Round a = a"


section \<open>Device state (state.go)\<close>

text \<open>
  A \<open>map[string]float64\<close> is an association list: \<open>m[k] = v\<close> is \<^const>\<open>AList.update\<close>,
  \<open>len(m) > 0\<close> is \<open>m \<noteq> []\<close>, and \<open>range m\<close> visits the entries in the order of the
  list, which stands for the order Go happens to choose.
\<close>

type_synonym metrics = "(string \<times> float64) list"

record deviceState =
  dsIP :: ip
  finger :: string
  hostname :: string
  lastTemps :: metrics
  lastHumidity :: metrics
  lastCO2 :: metrics
  lastPressure :: metrics
  lastPM25 :: metrics
  lastPM10 :: metrics
  lastVOC :: metrics

definition newDeviceState :: "ip \<Rightarrow> string \<Rightarrow> string \<Rightarrow> deviceState" where
  "newDeviceState i fp host =
     \<lparr>dsIP = i, finger = fp, hostname = host, lastTemps = [], lastHumidity = [], lastCO2 = [],
      lastPressure = [], lastPM25 = [], lastPM10 = [], lastVOC = []\<rparr>"

definition replacePlaceholders :: "string \<Rightarrow> ip \<Rightarrow> string \<Rightarrow> string" where
  "replacePlaceholders tmpl ip sysName =
     (let repl = tmpl;
          repl = ReplaceAll repl ''%IP%'' ip;
          repl = ReplaceAll repl ''%sysName%'' sysName
      in repl)"

definition deriveFingerprint :: "ip \<Rightarrow> string \<Rightarrow> string \<Rightarrow> string" where
  "deriveFingerprint ip sysName tmpl =
     (let base = ip;
          base = (if sysName \<noteq> [] then sysName @ ''-'' @ base else base);
          base = (if tmpl \<noteq> [] then replacePlaceholders tmpl ip sysName else base);
          sum = Sum256 (bytes_of base)
      in EncodeToString (take 24 sum))"


definition setMetric :: "string \<Rightarrow> string \<Rightarrow> float64 \<Rightarrow> deviceState \<Rightarrow> deviceState" where
  "setMetric category name val ds =
     (let c = ToLower category in
      if c = ''temperature'' \<or> c = ''temp'' \<or> c = ''t'' then
        ds\<lparr>lastTemps := AList.update name val (lastTemps ds)\<rparr>
      else if c = ''humidity'' \<or> c = ''hum'' \<or> c = ''h'' then
        ds\<lparr>lastHumidity := AList.update name val (lastHumidity ds)\<rparr>
      else if c = ''co2'' then
        ds\<lparr>lastCO2 := AList.update name val (lastCO2 ds)\<rparr>
      else if c = ''pressure'' \<or> c = ''press'' \<or> c = ''pr'' then
        ds\<lparr>lastPressure := AList.update name val (lastPressure ds)\<rparr>
      else if c = ''pm25'' then
        ds\<lparr>lastPM25 := AList.update name val (lastPM25 ds)\<rparr>
      else if c = ''pm10'' then
        ds\<lparr>lastPM10 := AList.update name val (lastPM10 ds)\<rparr>
      else if c = ''voc'' then
        ds\<lparr>lastVOC := AList.update name val (lastVOC ds)\<rparr>
      else ds)"

text \<open>\<open>system.Stats\<close>, \<open>system.Info\<close> and \<open>system.CombinedData\<close>, with the fields the agent fills.\<close>

record Stats =
  Temperatures :: metrics
  Humidity :: metrics
  CO2 :: metrics
  Pressure :: metrics
  PM25 :: metrics
  PM10 :: metrics
  VOC :: metrics

record Info =
  Hostname :: string
  AgentVersion :: string
  AgentType :: string
  DashboardTemp :: float64
  DashboardHumidity :: float64
  DashboardCO2 :: float64
  DashboardPressure :: float64
  DashboardPM25 :: float64
  DashboardPM10 :: float64
  DashboardVOC :: float64

record CombinedData =
  cdStats :: Stats
  cdInfo :: Info

text \<open>The loop \<open>for k, v := range src { dst[k] = v }\<close> into a fresh map.\<close>

definition copyMap :: "metrics \<Rightarrow> metrics" where
  "copyMap src = foldl (\<lambda>dst kv. AList.update (fst kv) (snd kv) dst) [] src"

text \<open>The loop bodies of \<open>maxMap\<close> and \<open>avgMap\<close>, on the pairs \<open>(max, set)\<close> and \<open>(sum, n)\<close>.\<close>

definition maxStep :: "float64 \<times> bool \<Rightarrow> string \<times> float64 \<Rightarrow> float64 \<times> bool" where
  "maxStep acc kv = (if \<not> snd acc \<or> fgt (snd kv) (fst acc) then (snd kv, True) else acc)"

definition maxMap :: "metrics \<Rightarrow> float64" where
  "maxMap m = fst (foldl maxStep (Num 0, False) m)"

definition avgStep :: "float64 \<times> nat \<Rightarrow> string \<times> float64 \<Rightarrow> float64 \<times> nat" where
  "avgStep acc kv = (fadd (fst acc) (snd kv), snd acc + 1)"

definition avgMap :: "metrics \<Rightarrow> float64" where
  "avgMap m =
     (let acc = foldl avgStep (Num 0, 0) m
      in if snd acc = 0 then Num 0 else fdiv (fst acc) (fromInt (int (snd acc))))"

text \<open>A Go map that is nil and one that is empty are both the empty list.\<close>

definition buildCombinedData :: "string \<Rightarrow> deviceState \<Rightarrow> CombinedData" where
  "buildCombinedData agentVersion ds =
     (let stats = \<lparr>Temperatures = copyMap (lastTemps ds),
                   Humidity = (if lastHumidity ds \<noteq> [] then copyMap (lastHumidity ds) else []),
                   CO2 = (if lastCO2 ds \<noteq> [] then copyMap (lastCO2 ds) else []),
                   Pressure = (if lastPressure ds \<noteq> [] then copyMap (lastPressure ds) else []),
                   PM25 = (if lastPM25 ds \<noteq> [] then copyMap (lastPM25 ds) else []),
                   PM10 = (if lastPM10 ds \<noteq> [] then copyMap (lastPM10 ds) else []),
                   VOC = (if lastVOC ds \<noteq> [] then copyMap (lastVOC ds) else [])\<rparr>;
          info = \<lparr>Hostname = hostname ds, AgentVersion = agentVersion, AgentType = ''snmp'',
                  DashboardTemp = (if lastTemps ds \<noteq> [] then maxMap (lastTemps ds) else Num 0),
                  DashboardHumidity = (if lastHumidity ds \<noteq> [] then maxMap (lastHumidity ds) else Num 0),
                  DashboardCO2 = (if lastCO2 ds \<noteq> [] then maxMap (lastCO2 ds) else Num 0),
                  DashboardPressure = (if lastPressure ds \<noteq> [] then avgMap (lastPressure ds) else Num 0),
                  DashboardPM25 = (if lastPM25 ds \<noteq> [] then maxMap (lastPM25 ds) else Num 0),
                  DashboardPM10 = (if lastPM10 ds \<noteq> [] then maxMap (lastPM10 ds) else Num 0),
                  DashboardVOC = (if lastVOC ds \<noteq> [] then maxMap (lastVOC ds) else Num 0)\<rparr>
      in \<lparr>cdStats = stats, cdInfo = info\<rparr>)"

section \<open>Configuration and value pipeline (config.go, receiver.go)\<close>

text \<open>
  The compiled \<open>ipRegex\<close> of a device rule is its \<open>MatchString\<close> predicate, \<open>None\<close> when the
  rule has no \<open>ip_regex\<close>. Only the configuration fields read by the modelled functions
  are kept.
\<close>

record OIDMap =
  Name :: string
  Category :: string
  Scale :: float64

record DeviceConfig =
  FingerprintTmpl :: string
  HostnameTemplate :: string
  Poll :: bool
  PollIntervalSec :: int
  Oids :: "(string \<times> OIDMap) list"
  ipRegex :: "(string \<Rightarrow> bool) option"

record Defaults =
  Round1 :: bool
  LogUnknown :: bool

record Config =
  Defaults :: Defaults
  Devices :: "DeviceConfig list"

definition matches :: "DeviceConfig \<Rightarrow> ip \<Rightarrow> bool" where
  "matches d i = (case ipRegex d of None \<Rightarrow> True | Some re \<Rightarrow> re i)"

fun MatchDevice :: "DeviceConfig list \<Rightarrow> ip \<Rightarrow> DeviceConfig option" where
  "MatchDevice [] i = None"
| "MatchDevice (d # ds) i = (if matches d i then Some d else MatchDevice ds i)"

definition TrimPrefixDot :: "string \<Rightarrow> string" where
  "TrimPrefixDot oid = (if take 1 oid = ''.'' then drop 1 oid else oid)"

fun findOIDMap :: "DeviceConfig list \<Rightarrow> ip \<Rightarrow> string \<Rightarrow> OIDMap option" where
  "findOIDMap [] i oid = None"
| "findOIDMap (d # ds) i oid =
     (let noDot = TrimPrefixDot oid in
      if \<not> matches d i then findOIDMap ds i oid
      else case map_of (Oids d) noDot of
             Some om \<Rightarrow> Some om
           | None \<Rightarrow> (case map_of (Oids d) (''.'' @ noDot) of
                        Some om \<Rightarrow> Some om
                      | None \<Rightarrow> findOIDMap ds i oid))"

definition shouldSend :: "OIDMap \<Rightarrow> bool" where
  "shouldSend om =
     (let c = ToLower (Category om) in
      c = ''temperature'' \<or> c = ''temp'' \<or> c = ''t'' \<or>
      c = ''humidity'' \<or> c = ''hum'' \<or> c = ''h'' \<or>
      c = ''co2'' \<or>
      c = ''pressure'' \<or> c = ''press'' \<or> c = ''pr'' \<or>
      c = ''pm25'' \<or> c = ''pm10'' \<or> c = ''voc'')"

definition transformValue :: "float64 \<Rightarrow> float64 \<Rightarrow> bool \<Rightarrow> float64" where
  "transformValue scale v round1 =
     (let scale = (if scale = Num 0 then Num 1 else scale);
          val = fdiv v scale;
          val = (if round1 then fdiv (Round (fmul val (Num 10))) (Num 10) else val)
      in val)"


section \<open>Hub sessions (client.go)\<close>

record FingerprintResponse =
  Fingerprint :: string
  frHostname :: string

text \<open>What a session hands to its connection: binary messages, pongs and close frames.\<close>

datatype frame =
    FingerprintFrame FingerprintResponse
  | DataFrame CombinedData
  | PongFrame
  | CloseFrame

text \<open>
  An inbound frame as \<open>OnMessage\<close> tells them apart: a frame that is not binary, one whose
  \<open>HubRequest\<close> does not decode, a \<open>CheckFingerprint\<close> whose payload does not decode, a
  \<open>CheckFingerprint\<close> with its signature and \<open>need_sys_info\<close>, a \<open>GetData\<close>, any other action.
\<close>

datatype hub_message =
    NotBinary
  | Undecodable
  | CheckFingerprintUndecodable
  | CheckFingerprint string bool
  | GetData
  | OtherAction

text \<open>
  A session. \<open>dcDS\<close> is the pointer to its device state (an address of the heap below),
  \<open>Conn\<close> says whether \<open>dc.Conn\<close> is non-nil, \<open>outbox\<close> collects the frames written so far.
\<close>

record deviceClient =
  dcIP :: ip
  dcDS :: nat
  Conn :: bool
  hubVerified :: bool
  outbox :: "frame list"

text \<open>
  The fields of the client factory that never change after \<open>newClientFactory\<close>: the
  configuration, the parsed hub key (its \<open>Verify\<close> predicate on data and signature blob,
  \<open>None\<close> when the key did not parse), the parsed URL and the trimmed token.
\<close>

record clientFactory =
  cfg :: Config
  pubKey :: "(string \<Rightarrow> string \<Rightarrow> bool) option"
  url :: "string option"
  token :: string

definition sendMessage :: "frame \<Rightarrow> deviceClient \<Rightarrow> deviceClient" where
  "sendMessage data dc = dc\<lparr>outbox := outbox dc @ [data]\<rparr>"

definition send :: "string \<Rightarrow> deviceState \<Rightarrow> deviceClient \<Rightarrow> deviceClient" where
  "send version ds dc =
     (if \<not> Conn dc \<or> \<not> hubVerified dc then dc
      else let cd = buildCombinedData version ds
           in if Temperatures (cdStats cd) = [] then dc
              else sendMessage (DataFrame cd) dc)"

definition verifySignature :: "(string \<Rightarrow> string \<Rightarrow> bool) \<Rightarrow> string \<Rightarrow> string \<Rightarrow> bool" where
  "verifySignature key tok signature = key tok signature"

text \<open>
  \<open>OnMessage\<close> runs in the read loop of a connection, which \<open>connect\<close> opens only with a
  parsed hub key: the key is an argument. \<open>ds\<close> is the device state the session points to.
\<close>

fun OnMessage ::
  "(string \<Rightarrow> string \<Rightarrow> bool) \<Rightarrow> string \<Rightarrow> string \<Rightarrow> deviceState \<Rightarrow> hub_message \<Rightarrow>
   deviceClient \<Rightarrow> deviceClient" where
  "OnMessage key tok version ds NotBinary dc = dc"
| "OnMessage key tok version ds Undecodable dc = dc"
| "OnMessage key tok version ds CheckFingerprintUndecodable dc = dc"
| "OnMessage key tok version ds (CheckFingerprint signature needSysInfo) dc =
     (if \<not> verifySignature key tok signature then dc
      else let dc = dc\<lparr>hubVerified := True\<rparr>;
               resp = \<lparr>Fingerprint = finger ds,
                       frHostname = (if needSysInfo then hostname ds else [])\<rparr>
           in sendMessage (FingerprintFrame resp) dc)"
| "OnMessage key tok version ds GetData dc = send version ds dc"
| "OnMessage key tok version ds OtherAction dc = dc"

definition OnClose :: "deviceClient \<Rightarrow> deviceClient" where
  "OnClose dc = dc\<lparr>hubVerified := False\<rparr>"

definition OnPing :: "deviceClient \<Rightarrow> deviceClient" where
  "OnPing dc = sendMessage PongFrame dc"

text \<open>\<open>connect\<close>, with the outcome of the dial as an argument.\<close>

definition connect :: "clientFactory \<Rightarrow> bool \<Rightarrow> deviceClient \<Rightarrow> deviceClient" where
  "connect cf dialed dc =
     (if url cf = None \<or> token cf = [] \<or> pubKey cf = None then dc
      else let dc = (if Conn dc then sendMessage CloseFrame dc else dc)
           in if \<not> dialed then dc else dc\<lparr>Conn := True\<rparr>)"

section \<open>The agent: registry, poller, trap receiver (agent.go, registry.go, poller.go, receiver.go)\<close>

text \<open>
  Device states are shared by pointer between the registry and the sessions, so they live
  in a heap (a list, an address is an index). \<open>loops\<close> lists the poll loops started so
  far, each with its IP and the index of its device rule.
\<close>

record agent =
  heap :: "deviceState list"
  devices :: "string \<rightharpoonup> nat"
  conns :: "string \<rightharpoonup> deviceClient"
  loops :: "(ip \<times> nat) list"

definition NewAgent :: agent where
  "NewAgent = \<lparr>heap = [], devices = Map.empty, conns = Map.empty, loops = []\<rparr>"

definition Notify :: "ip \<Rightarrow> agent \<Rightarrow> agent" where
  "Notify i st =
     (case conns st i of
        None \<Rightarrow>
          (case devices st i of
             Some a \<Rightarrow>
               st\<lparr>conns := (conns st)(i \<mapsto>
                     \<lparr>dcIP = i, dcDS = a, Conn = False, hubVerified = False, outbox = []\<rparr>)\<rparr>
           | None \<Rightarrow> st)
      | Some dc \<Rightarrow> st)"

fun pollRule :: "nat \<Rightarrow> DeviceConfig list \<Rightarrow> ip \<Rightarrow> nat option" where
  "pollRule n [] i = None"
| "pollRule n (d # ds) i = (if Poll d \<and> matches d i then Some n else pollRule (Suc n) ds i)"

definition ensurePolling :: "Config \<Rightarrow> ip \<Rightarrow> agent \<Rightarrow> agent" where
  "ensurePolling c i st =
     (case pollRule 0 (Devices c) i of
        None \<Rightarrow> st
      | Some n \<Rightarrow> st\<lparr>loops := loops st @ [(i, n)]\<rparr>)"

text \<open>
  A variable binding: its OID, its text when the value is a string or a byte slice, and
  the \<open>int64\<close> of \<open>gosnmp.ToBigInt\<close> of the value (\<open>None\<close> when that is nil).
\<close>

record varbind =
  vbName :: string
  vbText :: "string option"
  vbInt :: "int option"

definition storeMetric :: "nat \<Rightarrow> OIDMap \<Rightarrow> float64 \<Rightarrow> agent \<Rightarrow> agent" where
  "storeMetric a om f st =
     st\<lparr>heap := (heap st)[a := setMetric (Category om) (Name om) f (heap st ! a)]\<rparr>"

definition sysNameOf :: "varbind list \<Rightarrow> string" where
  "sysNameOf vars =
     foldl (\<lambda>sysName v.
              if vbName v = ''.1.3.6.1.2.1.1.5.0''
              then (case vbText v of Some t \<Rightarrow> t | None \<Rightarrow> sysName)
              else sysName) [] vars"

definition trapVar :: "Config \<Rightarrow> ip \<Rightarrow> nat \<Rightarrow> agent \<Rightarrow> varbind \<Rightarrow> agent" where
  "trapVar c i a st v =
     (if vbName v = ''.1.3.6.1.2.1.1.3.0'' \<or> vbName v = ''.1.3.6.1.6.3.1.1.4.1.0''
         \<or> vbName v = ''.1.3.6.1.2.1.1.5.0'' then st
      else case findOIDMap (Devices c) i (vbName v) of
             None \<Rightarrow> st
           | Some om \<Rightarrow>
               if \<not> shouldSend om then st
               else case vbInt v of
                      None \<Rightarrow> st
                    | Some n \<Rightarrow>
                        storeMetric a om
                          (transformValue (Scale om) (fromInt n) (Round1 (Defaults c))) st)"

definition handle :: "Config \<Rightarrow> varbind list \<Rightarrow> ip \<Rightarrow> agent \<Rightarrow> agent" where
  "handle c vars i st =
     (let sysName = sysNameOf vars;
          st = (case devices st i of
                  Some a \<Rightarrow> st
                | None \<Rightarrow>
                    (let dc = MatchDevice (Devices c) i;
                         fpTmpl = (case dc of Some d \<Rightarrow> FingerprintTmpl d | None \<Rightarrow> []);
                         hostTmpl = (case dc of Some d \<Rightarrow> HostnameTemplate d | None \<Rightarrow> []);
                         fp = deriveFingerprint i sysName fpTmpl;
                         host = (if hostTmpl \<noteq> [] then replacePlaceholders hostTmpl i sysName
                                 else if sysName = [] then i else sysName);
                         st = st\<lparr>heap := heap st @ [newDeviceState i fp host],
                                 devices := (devices st)(i \<mapsto> length (heap st))\<rparr>
                     in ensurePolling c i st));
          st = (case devices st i of
                  Some a \<Rightarrow> foldl (trapVar c i a) st vars
                | None \<Rightarrow> st)
      in Notify i st)"

text \<open>
  One pass of a poll loop for rule \<open>n\<close>, with the outcome of \<open>Connect\<close> and, for each OID,
  the \<open>int64\<close> the GET yields (\<open>None\<close> for an error, no variable or a nil value).
\<close>

definition pollVar ::
  "Config \<Rightarrow> ip \<Rightarrow> (string \<Rightarrow> int option) \<Rightarrow> agent \<Rightarrow> string \<times> OIDMap \<Rightarrow> agent" where
  "pollVar c i get st e =
     (if \<not> shouldSend (snd e) then st
      else case get (fst e) of
             None \<Rightarrow> st
           | Some n \<Rightarrow>
               (case devices st i of
                  Some a \<Rightarrow>
                    storeMetric a (snd e)
                      (transformValue (Scale (snd e)) (fromInt n) (Round1 (Defaults c))) st
                | None \<Rightarrow> st))"

definition pollOnce ::
  "Config \<Rightarrow> ip \<Rightarrow> nat \<Rightarrow> bool \<Rightarrow> (string \<Rightarrow> int option) \<Rightarrow> agent \<Rightarrow> agent" where
  "pollOnce c i n connOk get st =
     (if \<not> connOk then st
      else Notify i (foldl (pollVar c i get) st (Oids (Devices c ! n))))"

text \<open>\<open>EnsureDevice\<close>, given the text of \<open>net.ParseIP\<close> of its argument (\<open>None\<close> for nil).\<close>

definition EnsureDevice :: "Config \<Rightarrow> string option \<Rightarrow> string \<Rightarrow> agent \<Rightarrow> agent" where
  "EnsureDevice c nip host st =
     (case nip of
        None \<Rightarrow> st
      | Some i \<Rightarrow>
          (let ds = newDeviceState i (deriveFingerprint i host []) host;
               st = st\<lparr>heap := heap st @ [ds], devices := (devices st)(i \<mapsto> length (heap st))\<rparr>;
               st = ensurePolling c i st
           in Notify i st))"

text \<open>
  Everything that happens to the agent. A hub frame, a ping or a close reaches a session
  only through the read loop of an open connection; a poll pass belongs to a loop that was
  started. Elsewhere the event does not occur and the state stays as it is.
\<close>

datatype event =
    Trap "varbind list" ip
  | PollPass ip nat bool "string \<Rightarrow> int option"
  | Register "string option" string
  | NotifyCall ip
  | EnsurePollingCall ip
  | ConnectRun ip bool
  | HubMessage ip hub_message
  | HubPing ip
  | HubClose ip

definition onSession :: "ip \<Rightarrow> (deviceClient \<Rightarrow> deviceClient) \<Rightarrow> agent \<Rightarrow> agent" where
  "onSession i f st =
     (case conns st i of
        None \<Rightarrow> st
      | Some dc \<Rightarrow> if Conn dc then st\<lparr>conns := (conns st)(i \<mapsto> f dc)\<rparr> else st)"

fun step :: "clientFactory \<Rightarrow> string \<Rightarrow> event \<Rightarrow> agent \<Rightarrow> agent" where
  "step cf version (Trap vars i) st = handle (cfg cf) vars i st"
| "step cf version (PollPass i n connOk get) st =
     (if (i, n) \<in> set (loops st) then pollOnce (cfg cf) i n connOk get st else st)"
| "step cf version (Register nip host) st = EnsureDevice (cfg cf) nip host st"
| "step cf version (NotifyCall i) st = Notify i st"
| "step cf version (EnsurePollingCall i) st = ensurePolling (cfg cf) i st"
| "step cf version (ConnectRun i dialed) st =
     (case conns st i of
        None \<Rightarrow> st
      | Some dc \<Rightarrow> st\<lparr>conns := (conns st)(i \<mapsto> connect cf dialed dc)\<rparr>)"
| "step cf version (HubMessage i m) st =
     (case pubKey cf of
        None \<Rightarrow> st
      | Some key \<Rightarrow>
          onSession i (\<lambda>dc. OnMessage key (token cf) version (heap st ! dcDS dc) m dc) st)"
| "step cf version (HubPing i) st = onSession i OnPing st"
| "step cf version (HubClose i) st = onSession i OnClose st"

definition run :: "clientFactory \<Rightarrow> string \<Rightarrow> event list \<Rightarrow> agent \<Rightarrow> agent" where
  "run cf version evs st = foldl (\<lambda>s e. step cf version e s) st evs"

text \<open>The frames a session has written; none when there is no session.\<close>

definition written :: "agent \<Rightarrow> ip \<Rightarrow> frame list" where
  "written st i = (case conns st i of None \<Rightarrow> [] | Some dc \<Rightarrow> outbox dc)"

definition verified :: "agent \<Rightarrow> ip \<Rightarrow> bool" where
  "verified st i = (case conns st i of None \<Rightarrow> False | Some dc \<Rightarrow> hubVerified dc)"

fun isData :: "frame \<Rightarrow> bool" where
  "isData (DataFrame cd) = True"
| "isData _ = False"

definition fingerOf :: "agent \<Rightarrow> ip \<Rightarrow> string option" where
  "fingerOf st i = (case devices st i of None \<Rightarrow> None | Some a \<Rightarrow> Some (finger (heap st ! a)))"

definition loopsOf :: "agent \<Rightarrow> ip \<Rightarrow> nat" where
  "loopsOf st i = length (filter (\<lambda>l. fst l = i) (loops st))"

section \<open>The specification's wording, for comparison with the code\<close>

text \<open>
  The base string of a fingerprint as the specification words it: the template with both
  placeholders substituted when there is a template, else the system name, a dash and the
  IP when there is a system name, else the IP.
\<close>

definition fingerprintBase :: "ip \<Rightarrow> string \<Rightarrow> string \<Rightarrow> string" where
  "fingerprintBase i sysName tmpl =
     (if tmpl \<noteq> [] then ReplaceAll (ReplaceAll tmpl ''%IP%'' i) ''%sysName%'' sysName
      else if sysName \<noteq> [] then sysName @ ''-'' @ i
      else i)"

text \<open>
  The closed set of categories and the specification's normalisation: case-insensitive,
  with the aliases temp and t, hum and h, press and pr.
\<close>

datatype category = CatTemperature | CatHumidity | CatCO2 | CatPressure | CatPM25 | CatPM10 | CatVOC

definition normalizeCategory :: "string \<Rightarrow> category option" where
  "normalizeCategory s =
     (let c = ToLower s in
      if c \<in> {''temperature'', ''temp'', ''t''} then Some CatTemperature
      else if c \<in> {''humidity'', ''hum'', ''h''} then Some CatHumidity
      else if c = ''co2'' then Some CatCO2
      else if c \<in> {''pressure'', ''press'', ''pr''} then Some CatPressure
      else if c = ''pm25'' then Some CatPM25
      else if c = ''pm10'' then Some CatPM10
      else if c = ''voc'' then Some CatVOC
      else None)"

fun categoryMap :: "category \<Rightarrow> deviceState \<Rightarrow> metrics" where
  "categoryMap CatTemperature ds = lastTemps ds"
| "categoryMap CatHumidity ds = lastHumidity ds"
| "categoryMap CatCO2 ds = lastCO2 ds"
| "categoryMap CatPressure ds = lastPressure ds"
| "categoryMap CatPM25 ds = lastPM25 ds"
| "categoryMap CatPM10 ds = lastPM10 ds"
| "categoryMap CatVOC ds = lastVOC ds"

text \<open>
  The dashboard summary rules on \<open>float64\<close> values. A greatest value of a category is one
  of its current values that no current value exceeds. The scalar of a maximum category
  is zero without entries and a greatest value otherwise (NaN, which no transform of a
  number yields, is left aside: it compares false with everything). The mean of a
  category is the \<open>float64\<close> sum of its values, added to zero in the order of iteration,
  divided by their count.
\<close>

definition greatestOf :: "metrics \<Rightarrow> float64 \<Rightarrow> bool" where
  "greatestOf m r = (r \<in> snd ` set m \<and> (\<forall>v \<in> snd ` set m. \<not> fgt v r))"

definition dashboardMax :: "metrics \<Rightarrow> float64 \<Rightarrow> bool" where
  "dashboardMax m r =
     ((m = [] \<longrightarrow> r = Num 0) \<and> (m \<noteq> [] \<and> NaN \<notin> snd ` set m \<longrightarrow> greatestOf m r))"

definition floatMean :: "metrics \<Rightarrow> float64" where
  "floatMean m = fdiv (foldl fadd (Num 0) (map snd m)) (fromInt (int (length m)))"

definition dashboardMean :: "metrics \<Rightarrow> float64" where
  "dashboardMean m = (if m = [] then Num 0 else floatMean m)"

text \<open>The session \<open>Notify\<close> creates: bound to the device state, not connected, not verified.\<close>

definition newSession :: "ip \<Rightarrow> nat \<Rightarrow> deviceClient" where
  "newSession i a = \<lparr>dcIP = i, dcDS = a, Conn = False, hubVerified = False, outbox = []\<rparr>"

text \<open>
  The events that reach \<open>ensurePolling\<close> only through the trap handler, which calls it when
  it creates the state of an unknown IP: every event but explicit registration and a
  direct call. \<open>loopsBounded\<close> is the invariant such events keep: no loop for an IP
  without a state, at most one for an IP with a state. \<open>wfRegistry\<close> says that the
  registry holds addresses of the heap.
\<close>

fun guardedEvent :: "event \<Rightarrow> bool" where
  "guardedEvent (Register nip host) = False"
| "guardedEvent (EnsurePollingCall i) = False"
| "guardedEvent e = True"

definition loopsBounded :: "agent \<Rightarrow> bool" where
  "loopsBounded st = (\<forall>j. loopsOf st j \<le> (if devices st j = None then 0 else 1))"

definition wfRegistry :: "agent \<Rightarrow> bool" where
  "wfRegistry st = (\<forall>j a. devices st j = Some a \<longrightarrow> a < length (heap st))"

text \<open>
  A configuration with one polling rule for every IP, a factory with a toy signature
  check, and small agent states, for evaluating the model.
\<close>

definition exampleConfig :: Config where
  "exampleConfig =
     \<lparr>Defaults = \<lparr>Round1 = True, LogUnknown = False\<rparr>,
      Devices = [\<lparr>FingerprintTmpl = ''snmp-%IP%'', HostnameTemplate = ''%sysName%'',
                  Poll = True, PollIntervalSec = 30,
                  Oids = [(''.1.3.6.1.4.1.9.9.13.1.3.1.3.0'',
                           \<lparr>Name = ''temp1'', Category = ''temperature'', Scale = Num 1\<rparr>),
                          (''.1.3.6.1.4.1.9.9.13.1.3.1.4.0'',
                           \<lparr>Name = ''hum1'', Category = ''humidity'', Scale = Num 10\<rparr>)],
                  ipRegex = None\<rparr>]\<rparr>"

definition exampleFactory :: clientFactory where
  "exampleFactory =
     \<lparr>cfg = exampleConfig, pubKey = Some (\<lambda>data blob. blob = ''signed:'' @ data),
      url = Some ''https://hub.example'', token = ''secret''\<rparr>"

definition exampleSession :: "bool \<Rightarrow> deviceClient" where
  "exampleSession v = \<lparr>dcIP = ''10.0.0.1'', dcDS = 0, Conn = True, hubVerified = v, outbox = []\<rparr>"

definition exampleAgent :: "deviceState \<Rightarrow> bool \<Rightarrow> agent" where
  "exampleAgent ds v =
     \<lparr>heap = [ds], devices = [''10.0.0.1'' \<mapsto> 0], conns = [''10.0.0.1'' \<mapsto> exampleSession v],
      loops = [(''10.0.0.1'', 0)]\<rparr>"

definition tempState :: deviceState where
  "tempState = (newDeviceState ''10.0.0.1'' ''fp'' ''sw-a'')\<lparr>lastTemps := [(''temp1'', Num 237)]\<rparr>"

definition humidityState :: deviceState where
  "humidityState = (newDeviceState ''10.0.0.1'' ''fp'' ''sw-a'')\<lparr>lastHumidity := [(''hum1'', Num 45)]\<rparr>"

definition pressureState :: deviceState where
  "pressureState =
     (newDeviceState ''10.0.0.1'' ''fp'' ''sw-a'')
       \<lparr>lastPressure := [(''a'', Num (10 ^ 18)), (''b'', Num 1), (''c'', Num (- (10 ^ 18)))]\<rparr>"

definition climateState :: deviceState where
  "climateState =
     (newDeviceState ''10.0.0.1'' ''fp'' ''sw-a'')
       \<lparr>lastTemps := [(''inlet'', Num 21), (''outlet'', Num (47 / 2)), (''rack'', Num (- 3))],
        lastPressure := [(''p1'', Num 1013), (''p2'', Num 1014)]\<rparr>"

definition sysNameVar :: "string \<Rightarrow> varbind" where
  "sysNameVar name = \<lparr>vbName = ''.1.3.6.1.2.1.1.5.0'', vbText = Some name, vbInt = Some 0\<rparr>"


section \<open>Properties\<close>

subsection \<open>Fingerprints\<close>

lemma length_Sum256: "length (Sum256 m) = 32"
  by (simp add: Sum256_def Let_def sha_bytes_def u32_bytes_def split: prod.splits)

lemma length_EncodeToString: "length (EncodeToString bs) = 2 * length bs"
  by (induction bs) (simp_all add: EncodeToString_def hex_byte_def)

lemma set_hex_byte: "set (hex_byte b) \<subseteq> set hexdigits"
proof -
  have "unat b < 256" using unsigned_less [of b] by simp
  then have "unat b div 16 < length hexdigits" "unat b mod 16 < length hexdigits"
    by (simp_all add: hexdigits_def div_less_iff_less_mult)
  then show ?thesis unfolding hex_byte_def by (simp del: length_greater_0_conv)
qed

lemma set_EncodeToString: "set (EncodeToString bs) \<subseteq> set hexdigits"
  using set_hex_byte by (induction bs) (auto simp add: EncodeToString_def)

text \<open>
  C4: for every IP, system name and template the fingerprint is the lowercase hex text of
  the first 24 bytes of the SHA-256 of the base string (the substituted template if the
  template is non-empty, else system name, dash, IP if the system name is non-empty, else
  the IP), and it is always 48 characters long, each one of 0-9 and a-f.
\<close>

theorem deriveFingerprint_spec:
  "deriveFingerprint i sysName tmpl
     = EncodeToString (take 24 (Sum256 (bytes_of (fingerprintBase i sysName tmpl))))
   \<and> length (deriveFingerprint i sysName tmpl) = 48
   \<and> set (deriveFingerprint i sysName tmpl) \<subseteq> set ''0123456789abcdef''"
proof -
  have eq: "deriveFingerprint i sysName tmpl
     = EncodeToString (take 24 (Sum256 (bytes_of (fingerprintBase i sysName tmpl))))"
    by (simp add: deriveFingerprint_def fingerprintBase_def replacePlaceholders_def Let_def)
  have len: "length (deriveFingerprint i sysName tmpl) = 48"
    by (simp add: eq length_EncodeToString length_Sum256)
  have chars: "set (deriveFingerprint i sysName tmpl) \<subseteq> set ''0123456789abcdef''"
    using set_EncodeToString [of "take 24 (Sum256 (bytes_of (fingerprintBase i sysName tmpl)))"]
    by (simp only: eq hexdigits_def)
  from eq len chars show ?thesis by blast
qed

subsection \<open>Evaluating \<open>float64\<close> arithmetic\<close>

lemma bitlength_pos: "0 < n \<Longrightarrow> bitlength n = 1 + bitlength (n div 2)"
  by (subst bitlength.simps) simp

lemma bitlength_nonpos: "n \<le> 0 \<Longrightarrow> bitlength n = 0"
  by (subst bitlength.simps) simp

lemmas float_eval = rnd_def ilog2_def pow2_def roundEven_def Let_def bitlength_pos bitlength_nonpos
  fromInt_def infOf_def


subsection \<open>The value transform\<close>

lemma rnd_not_NaN [simp]: "rnd x \<noteq> NaN"
  by (simp add: rnd_def Let_def)








subsection \<open>Metrics\<close>

lemma categoryMap_other:
  "k \<noteq> CatTemperature \<Longrightarrow> categoryMap k (ds\<lparr>lastTemps := x\<rparr>) = categoryMap k ds"
  "k \<noteq> CatHumidity \<Longrightarrow> categoryMap k (ds\<lparr>lastHumidity := x\<rparr>) = categoryMap k ds"
  "k \<noteq> CatCO2 \<Longrightarrow> categoryMap k (ds\<lparr>lastCO2 := x\<rparr>) = categoryMap k ds"
  "k \<noteq> CatPressure \<Longrightarrow> categoryMap k (ds\<lparr>lastPressure := x\<rparr>) = categoryMap k ds"
  "k \<noteq> CatPM25 \<Longrightarrow> categoryMap k (ds\<lparr>lastPM25 := x\<rparr>) = categoryMap k ds"
  "k \<noteq> CatPM10 \<Longrightarrow> categoryMap k (ds\<lparr>lastPM10 := x\<rparr>) = categoryMap k ds"
  "k \<noteq> CatVOC \<Longrightarrow> categoryMap k (ds\<lparr>lastVOC := x\<rparr>) = categoryMap k ds"
  by (cases k; simp)+

text \<open>
  C6: \<open>set_metric\<close> upserts the value under the sensor name into the map of exactly one
  category if the category, compared without regard to case, is one of the seven names or
  an alias, and leaves every other map and the identity untouched; for any other category
  the state is unchanged.
\<close>

theorem setMetric_spec:
  "(case normalizeCategory category of
      None \<Rightarrow> setMetric category name val ds = ds
    | Some k \<Rightarrow>
        map_of (categoryMap k (setMetric category name val ds))
          = (map_of (categoryMap k ds))(name \<mapsto> val)
        \<and> (\<forall>k'. k' \<noteq> k \<longrightarrow> categoryMap k' (setMetric category name val ds) = categoryMap k' ds)
        \<and> dsIP (setMetric category name val ds) = dsIP ds
        \<and> finger (setMetric category name val ds) = finger ds
        \<and> hostname (setMetric category name val ds) = hostname ds)"
  by (simp add: normalizeCategory_def setMetric_def Let_def update_conv' categoryMap_other)

text \<open>
  The theorem at the alias Hum, at humidity spelt with U+0130 for its first i (which
  \<open>strings.ToLower\<close> lowers to i), and at the unknown category power.
\<close>

theorem setMetric_spec_witness:
  "normalizeCategory ''Hum'' = Some CatHumidity
   \<and> CatTemperature \<noteq> CatHumidity
   \<and> categoryMap CatTemperature
        (setMetric ''Hum'' ''rack'' (Num 41) (newDeviceState ''10.0.0.1'' ''f'' ''h''))
       = categoryMap CatTemperature (newDeviceState ''10.0.0.1'' ''f'' ''h'')
   \<and> map_of (lastHumidity
                (setMetric ''Hum'' ''rack'' (Num 41) (newDeviceState ''10.0.0.1'' ''f'' ''h'')))
         ''rack'' = Some (Num 41)
   \<and> normalizeCategory (''hum'' @ [CHR 0xC4, CHR 0xB0] @ ''dity'') = Some CatHumidity
   \<and> map_of (lastHumidity
                (setMetric (''hum'' @ [CHR 0xC4, CHR 0xB0] @ ''dity'') ''rack'' (Num 41)
                   (newDeviceState ''10.0.0.1'' ''f'' ''h'')))
         ''rack'' = Some (Num 41)
   \<and> normalizeCategory ''power'' = None
   \<and> setMetric ''power'' ''psu'' (Num 300) (newDeviceState ''10.0.0.1'' ''f'' ''h'')
       = newDeviceState ''10.0.0.1'' ''f'' ''h''"
proof -
  let ?ds = "newDeviceState ''10.0.0.1'' ''f'' ''h''"
  let ?hum = "''hum'' @ [CHR 0xC4, CHR 0xB0] @ ''dity''"
  have n: "normalizeCategory ''Hum'' = Some CatHumidity"
    by code_simp
  have i: "normalizeCategory ?hum = Some CatHumidity"
    by code_simp
  have u: "normalizeCategory ''power'' = None"
    by code_simp
  have d: "CatTemperature \<noteq> CatHumidity" by simp
  from setMetric_spec [of "''Hum''" "''rack''" "Num 41" ?ds] n
  have k: "map_of (categoryMap CatHumidity (setMetric ''Hum'' ''rack'' (Num 41) ?ds))
             = (map_of (categoryMap CatHumidity ?ds))(''rack'' \<mapsto> Num 41)"
    and o: "\<forall>k'. k' \<noteq> CatHumidity \<longrightarrow>
              categoryMap k' (setMetric ''Hum'' ''rack'' (Num 41) ?ds) = categoryMap k' ?ds"
    by simp_all
  from o d have t: "categoryMap CatTemperature (setMetric ''Hum'' ''rack'' (Num 41) ?ds)
                      = categoryMap CatTemperature ?ds"
    by blast
  from k have r: "map_of (lastHumidity (setMetric ''Hum'' ''rack'' (Num 41) ?ds)) ''rack''
                    = Some (Num 41)"
    by simp
  from setMetric_spec [of ?hum "''rack''" "Num 41" ?ds]
  have "map_of (categoryMap CatHumidity (setMetric ?hum ''rack'' (Num 41) ?ds))
             = (map_of (categoryMap CatHumidity ?ds))(''rack'' \<mapsto> Num 41)"
    unfolding i by simp
  then have r': "map_of (lastHumidity (setMetric ?hum ''rack'' (Num 41) ?ds)) ''rack''
                   = Some (Num 41)"
    by simp
  from setMetric_spec [of "''power''" "''psu''" "Num 300" ?ds] u
  have p: "setMetric ''power'' ''psu'' (Num 300) ?ds = ?ds" by simp
  from n d t r i r' u p show ?thesis by blast
qed

subsection \<open>Dashboard summaries\<close>

lemma fgt_asym: "fgt a b \<Longrightarrow> \<not> fgt b a"
  by (cases a; cases b) simp_all

lemma not_fgt_trans:
  "a \<noteq> NaN \<Longrightarrow> b \<noteq> NaN \<Longrightarrow> c \<noteq> NaN \<Longrightarrow> \<not> fgt a b \<Longrightarrow> \<not> fgt b c \<Longrightarrow> \<not> fgt a c"
  by (cases a; cases b; cases c) simp_all

lemma not_fgt_refl: "\<not> fgt a a"
  by (cases a) simp_all

lemma foldl_maxStep_greatest:
  assumes "mx \<noteq> NaN" and "NaN \<notin> snd ` set m"
  shows "snd (foldl maxStep (mx, True) m)
         \<and> fst (foldl maxStep (mx, True) m) \<in> insert mx (snd ` set m)
         \<and> \<not> fgt mx (fst (foldl maxStep (mx, True) m))
         \<and> (\<forall>v \<in> snd ` set m. \<not> fgt v (fst (foldl maxStep (mx, True) m)))"
  using assms
proof (induction m arbitrary: mx)
  case Nil
  then show ?case by (simp add: not_fgt_refl)
next
  case (Cons kv rest)
  define mx' where "mx' = (if fgt (snd kv) mx then snd kv else mx)"
  define r where "r = fst (foldl maxStep (mx', True) rest)"
  have st: "foldl maxStep (mx, True) (kv # rest) = foldl maxStep (mx', True) rest"
    by (simp add: maxStep_def mx'_def)
  from Cons.prems have kvn: "snd kv \<noteq> NaN" and restn: "NaN \<notin> snd ` set rest"
    by auto
  have mx'n: "mx' \<noteq> NaN" using Cons.prems(1) kvn by (simp add: mx'_def)
  from Cons.IH [OF mx'n restn]
  have ih: "snd (foldl maxStep (mx', True) rest)" "r \<in> insert mx' (snd ` set rest)"
    "\<not> fgt mx' r" "\<forall>v \<in> snd ` set rest. \<not> fgt v r"
    by (simp_all add: r_def)
  have rn: "r \<noteq> NaN" using ih(2) mx'n restn by auto
  have a: "\<not> fgt mx mx'" "\<not> fgt (snd kv) mx'"
    by (auto simp add: mx'_def fgt_asym not_fgt_refl)
  have b: "\<not> fgt mx r"
    using not_fgt_trans [OF Cons.prems(1) mx'n rn a(1) ih(3)] .
  have c: "\<not> fgt (snd kv) r"
    using not_fgt_trans [OF kvn mx'n rn a(2) ih(3)] .
  have d: "r \<in> insert mx (snd ` set (kv # rest))"
    using ih(2) by (auto simp add: mx'_def split: if_splits)
  show ?case
    unfolding st using ih(1) b c d ih(4) by (simp add: r_def)
qed

lemma maxMap_greatest:
  assumes "m \<noteq> []" and "NaN \<notin> snd ` set m"
  shows "greatestOf m (maxMap m)"
proof (cases m)
  case Nil
  with assms show ?thesis by simp
next
  case (Cons kv rest)
  have mm: "maxMap m = fst (foldl maxStep (snd kv, True) rest)"
    by (simp add: maxMap_def Cons maxStep_def)
  from assms(2) have kvn: "snd kv \<noteq> NaN" and restn: "NaN \<notin> snd ` set rest"
    by (auto simp add: Cons)
  from foldl_maxStep_greatest [OF kvn restn]
  have "fst (foldl maxStep (snd kv, True) rest) \<in> insert (snd kv) (snd ` set rest)"
    and "\<not> fgt (snd kv) (fst (foldl maxStep (snd kv, True) rest))"
    and "\<forall>v \<in> snd ` set rest. \<not> fgt v (fst (foldl maxStep (snd kv, True) rest))"
    by blast+
  then show ?thesis
    unfolding greatestOf_def mm by (simp add: Cons)
qed

lemma maxMap_Nil: "maxMap [] = Num 0"
  by (simp add: maxMap_def)

lemma dashboardMax_maxMap: "dashboardMax m (if m \<noteq> [] then maxMap m else Num 0)"
  by (simp add: dashboardMax_def maxMap_greatest)

lemma foldl_avgStep:
  "foldl avgStep (s, n) m = (foldl fadd s (map snd m), n + length m)"
  by (induction m arbitrary: s n) (simp_all add: avgStep_def)

lemma avgMap_floatMean: "m \<noteq> [] \<Longrightarrow> avgMap m = floatMean m"
  by (simp add: avgMap_def foldl_avgStep Let_def floatMean_def)

text \<open>
  C8, as stated, fails for pressure: the scalar is a \<open>float64\<close> sum, rounded at each step
  and taken in the order of iteration, divided by the count. With the pressures 1e18, 1
  and -1e18 visited in this order the sum is 0 and so is the scalar, where the arithmetic
  mean of the three values is a third.
\<close>

theorem pressure_mean_counterexample:
  "DashboardPressure (cdInfo (buildCombinedData ''0.12'' pressureState)) = Num 0
   \<and> DashboardPressure (cdInfo (buildCombinedData ''0.12'' pressureState))
       \<noteq> Num ((10 ^ 18 + 1 + - (10 ^ 18)) / 3)"
proof -
  have "avgMap (lastPressure pressureState) = Num 0"
    by (simp add: pressureState_def newDeviceState_def avgMap_def avgStep_def float_eval)
  then have "DashboardPressure (cdInfo (buildCombinedData ''0.12'' pressureState)) = Num 0"
    by (simp add: buildCombinedData_def pressureState_def)
  then show ?thesis by simp
qed

text \<open>
  C8, amended: in the payload of a snapshot the dashboard scalar of temperature, humidity,
  CO2, PM2.5, PM10 and VOC is a greatest one of the current values of the category (none
  of them NaN), the scalar of pressure is the \<open>float64\<close> sum of its current values, added
  to zero in the order of iteration, divided by their count, and the scalar of a category
  without entries is zero.
\<close>

theorem buildCombinedData_dashboard:
  "dashboardMax (lastTemps ds) (DashboardTemp (cdInfo (buildCombinedData v ds)))
   \<and> dashboardMax (lastHumidity ds) (DashboardHumidity (cdInfo (buildCombinedData v ds)))
   \<and> dashboardMax (lastCO2 ds) (DashboardCO2 (cdInfo (buildCombinedData v ds)))
   \<and> dashboardMax (lastPM25 ds) (DashboardPM25 (cdInfo (buildCombinedData v ds)))
   \<and> dashboardMax (lastPM10 ds) (DashboardPM10 (cdInfo (buildCombinedData v ds)))
   \<and> dashboardMax (lastVOC ds) (DashboardVOC (cdInfo (buildCombinedData v ds)))
   \<and> DashboardPressure (cdInfo (buildCombinedData v ds)) = dashboardMean (lastPressure ds)"
  using dashboardMax_maxMap
  by (simp add: buildCombinedData_def dashboardMean_def avgMap_floatMean)

text \<open>
  The theorem at a state with three temperatures, two pressures and no humidity: the
  greatest temperature, the mean of the pressures, zero.
\<close>

theorem buildCombinedData_dashboard_witness:
  "lastTemps climateState \<noteq> [] \<and> NaN \<notin> snd ` set (lastTemps climateState)
   \<and> DashboardTemp (cdInfo (buildCombinedData ''0.12'' climateState)) = Num (47 / 2)
   \<and> lastHumidity climateState = []
   \<and> DashboardHumidity (cdInfo (buildCombinedData ''0.12'' climateState)) = Num 0
   \<and> DashboardPressure (cdInfo (buildCombinedData ''0.12'' climateState)) = Num (2027 / 2)"
proof -
  let ?cd = "buildCombinedData ''0.12'' climateState"
  have t: "lastTemps climateState \<noteq> []" "NaN \<notin> snd ` set (lastTemps climateState)"
    and h: "lastHumidity climateState = []"
    by (simp_all add: climateState_def newDeviceState_def)
  from buildCombinedData_dashboard [of climateState "''0.12''"]
  have dt: "dashboardMax (lastTemps climateState) (DashboardTemp (cdInfo ?cd))"
    and dh: "dashboardMax (lastHumidity climateState) (DashboardHumidity (cdInfo ?cd))"
    and dp: "DashboardPressure (cdInfo ?cd) = dashboardMean (lastPressure climateState)"
    by blast+
  from dt t have g: "greatestOf (lastTemps climateState) (DashboardTemp (cdInfo ?cd))"
    by (simp add: dashboardMax_def)
  then have "DashboardTemp (cdInfo ?cd) \<in> {Num 21, Num (47 / 2), Num (- 3)}"
    and "\<not> fgt (Num (47 / 2)) (DashboardTemp (cdInfo ?cd))"
    by (auto simp add: greatestOf_def climateState_def newDeviceState_def)
  then have temp: "DashboardTemp (cdInfo ?cd) = Num (47 / 2)"
    by auto
  from dh h have hum: "DashboardHumidity (cdInfo ?cd) = Num 0"
    by (simp add: dashboardMax_def)
  have "dashboardMean (lastPressure climateState) = Num (2027 / 2)"
    by (simp add: dashboardMean_def floatMean_def climateState_def newDeviceState_def float_eval)
  with dp have pr: "DashboardPressure (cdInfo ?cd) = Num (2027 / 2)" by simp
  from t h temp hum pr show ?thesis by blast
qed


subsection \<open>What the agent operations leave alone\<close>

lemma storeMetric_fields [simp]:
  "devices (storeMetric a om f st) = devices st"
  "conns (storeMetric a om f st) = conns st"
  "loops (storeMetric a om f st) = loops st"
  by (simp_all add: storeMetric_def)

lemma trapVar_fields [simp]:
  "devices (trapVar c i a st v) = devices st"
  "conns (trapVar c i a st v) = conns st"
  "loops (trapVar c i a st v) = loops st"
  by (simp_all add: trapVar_def split: option.splits)

lemma foldl_trapVar_fields [simp]:
  "devices (foldl (trapVar c i a) st vars) = devices st"
  "conns (foldl (trapVar c i a) st vars) = conns st"
  "loops (foldl (trapVar c i a) st vars) = loops st"
  by (induction vars arbitrary: st) simp_all

lemma pollVar_fields [simp]:
  "devices (pollVar c i g st e) = devices st"
  "conns (pollVar c i g st e) = conns st"
  "loops (pollVar c i g st e) = loops st"
  by (simp_all add: pollVar_def split: option.splits)

lemma foldl_pollVar_fields [simp]:
  "devices (foldl (pollVar c i g) st es) = devices st"
  "conns (foldl (pollVar c i g) st es) = conns st"
  "loops (foldl (pollVar c i g) st es) = loops st"
  by (induction es arbitrary: st) simp_all

lemma ensurePolling_fields [simp]:
  "devices (ensurePolling c i st) = devices st"
  "conns (ensurePolling c i st) = conns st"
  "heap (ensurePolling c i st) = heap st"
  by (simp_all add: ensurePolling_def split: option.splits)

lemma Notify_fields [simp]:
  "devices (Notify i st) = devices st"
  "heap (Notify i st) = heap st"
  "loops (Notify i st) = loops st"
  by (simp_all add: Notify_def split: option.splits)

lemma written_Notify: "written (Notify j st) i = written st i"
  by (simp add: written_def Notify_def split: option.splits)

lemma written_unchanged [simp]:
  "written (foldl (trapVar c j a) st vars) i = written st i"
  "written (foldl (pollVar c j g) st es) i = written st i"
  "written (ensurePolling c j st) i = written st i"
  "written (st\<lparr>heap := h, devices := d\<rparr>) i = written st i"
  by (simp_all add: written_def)

lemma written_handle: "written (handle c vars j st) i = written st i"
proof (cases "devices st j")
  case None
  then show ?thesis by (simp add: handle_def Let_def written_Notify)
next
  case (Some a)
  then show ?thesis by (simp add: handle_def Let_def written_Notify)
qed

lemma written_pollOnce: "written (pollOnce c j n ok g st) i = written st i"
  by (simp add: pollOnce_def written_Notify)

lemma written_EnsureDevice: "written (EnsureDevice c nip host st) i = written st i"
  by (cases nip) (simp_all add: EnsureDevice_def Let_def written_Notify)

lemma outbox_connect: "\<exists>new. outbox (connect cf d dc) = outbox dc @ new \<and> \<not> list_ex isData new"
  by (simp add: connect_def sendMessage_def Let_def)

lemma outbox_OnMessage:
  "\<exists>new. outbox (OnMessage key tok v ds m dc) = outbox dc @ new
         \<and> (list_ex isData new \<longrightarrow> m = GetData \<and> hubVerified dc)"
  by (cases m) (simp_all add: send_def sendMessage_def Let_def)

lemma outbox_OnPing: "\<exists>new. outbox (OnPing dc) = outbox dc @ new \<and> \<not> list_ex isData new"
  by (simp add: OnPing_def sendMessage_def)

lemma outbox_OnClose: "outbox (OnClose dc) = outbox dc"
  by (simp add: OnClose_def)

lemma written_onSession:
  "written (onSession j f st) i =
     (case conns st j of
        None \<Rightarrow> written st i
      | Some dc \<Rightarrow> if i = j \<and> Conn dc then outbox (f dc) else written st i)"
  by (simp add: onSession_def written_def split: option.splits)

text \<open>
  C1: whatever happens to the agent, a session's frames only grow, and a step adds a
  CombinedData frame to the session of an IP only if the step is a GetData request of the
  hub on that very session and the session was verified; a call of \<open>Notify\<close> writes
  nothing on any session.
\<close>

theorem send_on_request_only:
  "(\<exists>new. written (step cf v e st) i = written st i @ new
          \<and> (list_ex isData new \<longrightarrow> e = HubMessage i GetData \<and> verified st i))
   \<and> written (step cf v (NotifyCall j) st) i = written st i"
proof -
  have n: "written (step cf v (NotifyCall j) st) i = written st i"
    by (simp add: written_Notify)
  have "\<exists>new. written (step cf v e st) i = written st i @ new
          \<and> (list_ex isData new \<longrightarrow> e = HubMessage i GetData \<and> verified st i)"
  proof (cases e)
    case (Trap vars k)
    then show ?thesis by (simp add: written_handle)
  next
    case (PollPass k n ok g)
    then show ?thesis by (simp add: written_pollOnce)
  next
    case (Register nip host)
    then show ?thesis by (simp add: written_EnsureDevice)
  next
    case (NotifyCall k)
    then show ?thesis by (simp add: written_Notify)
  next
    case (EnsurePollingCall k)
    then show ?thesis by simp
  next
    case (ConnectRun k d)
    show ?thesis
    proof (cases "conns st k")
      case None
      with ConnectRun show ?thesis by simp
    next
      case (Some dc)
      obtain new where new: "outbox (connect cf d dc) = outbox dc @ new" "\<not> list_ex isData new"
        using outbox_connect by blast
      show ?thesis
      proof (cases "i = k")
        case True
        have w: "written (step cf v e st) i = outbox (connect cf d dc)"
          using ConnectRun Some True by (simp add: written_def)
        have w0: "written st i = outbox dc"
          using Some True by (simp add: written_def)
        from new show ?thesis unfolding w w0 by blast
      next
        case False
        have "written (step cf v e st) i = written st i"
          using ConnectRun Some False by (simp add: written_def)
        then show ?thesis by simp
      qed
    qed
  next
    case (HubMessage k m)
    show ?thesis
    proof (cases "pubKey cf")
      case None
      with HubMessage show ?thesis by simp
    next
      case (Some key)
      show ?thesis
      proof (cases "conns st k")
        case None
        with HubMessage Some show ?thesis by (simp add: written_onSession)
      next
        case dc: (Some dc)
        obtain new where new: "outbox (OnMessage key (token cf) v (heap st ! dcDS dc) m dc) = outbox dc @ new"
          "list_ex isData new \<longrightarrow> m = GetData \<and> hubVerified dc"
          using outbox_OnMessage by blast
        show ?thesis
        proof (cases "i = k \<and> Conn dc")
          case True
          have w: "written (step cf v e st) i = outbox (OnMessage key (token cf) v (heap st ! dcDS dc) m dc)"
            using HubMessage Some dc True by (simp add: written_onSession)
          have w0: "written st i = outbox dc" "verified st i = hubVerified dc"
            using dc True by (simp_all add: written_def verified_def)
          from new show ?thesis unfolding w w0 using HubMessage True by blast
        next
          case False
          have "written (step cf v e st) i = written st i"
            using HubMessage Some dc False by (auto simp add: written_onSession)
          then show ?thesis by simp
        qed
      qed
    qed
  next
    case (HubPing k)
    show ?thesis
    proof (cases "conns st k")
      case None
      with HubPing show ?thesis by (simp add: written_onSession)
    next
      case (Some dc)
      obtain new where new: "outbox (OnPing dc) = outbox dc @ new" "\<not> list_ex isData new"
        using outbox_OnPing by blast
      show ?thesis
      proof (cases "i = k \<and> Conn dc")
        case True
        have w: "written (step cf v e st) i = outbox (OnPing dc)"
          using HubPing Some True by (simp add: written_onSession)
        have w0: "written st i = outbox dc"
          using Some True by (simp add: written_def)
        from new show ?thesis unfolding w w0 by blast
      next
        case False
        have "written (step cf v e st) i = written st i"
          using HubPing Some False by (auto simp add: written_onSession)
        then show ?thesis by simp
      qed
    qed
  next
    case (HubClose k)
    have "written (step cf v e st) i = written st i"
    proof (cases "conns st k")
      case None
      with HubClose show ?thesis by (simp add: written_onSession)
    next
      case (Some dc)
      show ?thesis
      proof (cases "i = k \<and> Conn dc")
        case True
        have "written (step cf v e st) i = outbox (OnClose dc)"
          using HubClose Some True by (simp add: written_onSession)
        moreover have "written st i = outbox dc"
          using Some True by (simp add: written_def)
        ultimately show ?thesis by (simp add: outbox_OnClose)
      next
        case False
        then show ?thesis
          using HubClose Some by (auto simp add: written_onSession)
      qed
    qed
    then show ?thesis by simp
  qed
  with n show ?thesis by blast
qed


text \<open>
  The theorem at a verified session with one temperature: GetData writes the snapshot;
  the same request on the unverified session, and a notification, write nothing.
\<close>

theorem send_on_request_only_witness:
  "list_ex isData (written (step exampleFactory ''0.12'' (HubMessage ''10.0.0.1'' GetData)
                             (exampleAgent tempState True)) ''10.0.0.1'')
   \<and> verified (exampleAgent tempState True) ''10.0.0.1''
   \<and> written (step exampleFactory ''0.12'' (HubMessage ''10.0.0.1'' GetData)
                (exampleAgent tempState False)) ''10.0.0.1'' = []
   \<and> written (step exampleFactory ''0.12'' (NotifyCall ''10.0.0.1'')
                (exampleAgent tempState True)) ''10.0.0.1'' = []"
proof -
  let ?st = "exampleAgent tempState True"
  let ?e = "HubMessage ''10.0.0.1'' GetData"
  have w0: "written ?st ''10.0.0.1'' = []"
    by (simp add: written_def exampleAgent_def exampleSession_def)
  have w: "written (step exampleFactory ''0.12'' ?e ?st) ''10.0.0.1''
             = [DataFrame (buildCombinedData ''0.12'' tempState)]"
    by (simp add: written_def exampleAgent_def exampleSession_def exampleFactory_def
          onSession_def send_def sendMessage_def Let_def buildCombinedData_def copyMap_def
          tempState_def newDeviceState_def)
  from send_on_request_only [of exampleFactory "''0.12''" ?e ?st "''10.0.0.1''" "''10.0.0.1''"]
  obtain new where new: "written (step exampleFactory ''0.12'' ?e ?st) ''10.0.0.1''
                           = written ?st ''10.0.0.1'' @ new"
      "list_ex isData new \<longrightarrow> ?e = HubMessage ''10.0.0.1'' GetData \<and> verified ?st ''10.0.0.1''"
    and n: "written (step exampleFactory ''0.12'' (NotifyCall ''10.0.0.1'') ?st) ''10.0.0.1''
              = written ?st ''10.0.0.1''"
    by blast
  from new(1) have "new = [DataFrame (buildCombinedData ''0.12'' tempState)]"
    unfolding w w0 by simp
  then have d: "list_ex isData new" by simp
  with new(2) have v: "verified ?st ''10.0.0.1''" by blast
  have d': "list_ex isData (written (step exampleFactory ''0.12'' ?e ?st) ''10.0.0.1'')"
    unfolding w by simp
  have u: "written (step exampleFactory ''0.12'' ?e (exampleAgent tempState False)) ''10.0.0.1'' = []"
    by (simp add: written_def exampleAgent_def exampleSession_def exampleFactory_def
          onSession_def send_def)
  from d' v u n w0 show ?thesis by simp
qed


subsection \<open>Authentication\<close>

lemma onSession_same:
  "conns st i = Some dc \<Longrightarrow> f dc = dc \<Longrightarrow> onSession i f st = st"
  by (simp add: onSession_def map_upd_triv)

text \<open>
  C2: on a CheckFingerprint request reaching a connected session, a signature that the
  hub key accepts for the token marks the session verified and writes one
  FingerprintResponse with the fingerprint of the session's device state, its hostname
  being that of the state if \<open>need_sys_info\<close> is set and left empty otherwise; a signature
  that the key rejects changes nothing: no frame is written and the verified flag stays
  as it was.
\<close>

theorem CheckFingerprint_spec:
  assumes "conns st i = Some dc" and "Conn dc" and "pubKey cf = Some key"
  shows "(key (token cf) sig \<longrightarrow>
            verified (step cf v (HubMessage i (CheckFingerprint sig need)) st) i
            \<and> written (step cf v (HubMessage i (CheckFingerprint sig need)) st) i
                = written st i @
                  [FingerprintFrame
                     \<lparr>Fingerprint = finger (heap st ! dcDS dc),
                      frHostname = (if need then hostname (heap st ! dcDS dc) else [])\<rparr>])
         \<and> (\<not> key (token cf) sig \<longrightarrow>
              step cf v (HubMessage i (CheckFingerprint sig need)) st = st
              \<and> written (step cf v (HubMessage i (CheckFingerprint sig need)) st) i = written st i
              \<and> verified (step cf v (HubMessage i (CheckFingerprint sig need)) st) i = verified st i)"
proof (cases "key (token cf) sig")
  case True
  then show ?thesis
    using assms
    by (simp add: onSession_def verified_def written_def verifySignature_def sendMessage_def Let_def)
next
  case False
  have "OnMessage key (token cf) v (heap st ! dcDS dc) (CheckFingerprint sig need) dc = dc"
    using False by (simp add: verifySignature_def)
  then have "step cf v (HubMessage i (CheckFingerprint sig need)) st = st"
    using assms by (simp add: onSession_same)
  with False show ?thesis by simp
qed

text \<open>The theorem at an unverified session, for an accepted and for a forged signature.\<close>

theorem CheckFingerprint_spec_witness:
  "conns (exampleAgent tempState False) ''10.0.0.1'' = Some (exampleSession False)
   \<and> Conn (exampleSession False)
   \<and> pubKey exampleFactory = Some (\<lambda>data blob. blob = ''signed:'' @ data)
   \<and> verified (step exampleFactory ''0.12'' (HubMessage ''10.0.0.1'' (CheckFingerprint ''signed:secret'' True))
                 (exampleAgent tempState False)) ''10.0.0.1''
   \<and> written (step exampleFactory ''0.12'' (HubMessage ''10.0.0.1'' (CheckFingerprint ''signed:secret'' True))
                 (exampleAgent tempState False)) ''10.0.0.1''
       = [FingerprintFrame \<lparr>Fingerprint = ''fp'', frHostname = ''sw-a''\<rparr>]
   \<and> step exampleFactory ''0.12'' (HubMessage ''10.0.0.1'' (CheckFingerprint ''forged'' True))
         (exampleAgent tempState False) = exampleAgent tempState False
   \<and> \<not> verified (exampleAgent tempState False) ''10.0.0.1''"
proof -
  let ?st = "exampleAgent tempState False"
  let ?key = "\<lambda>data blob. blob = ''signed:'' @ data"
  have a: "conns ?st ''10.0.0.1'' = Some (exampleSession False)"
    by (simp add: exampleAgent_def)
  have b: "Conn (exampleSession False)"
    by (simp add: exampleSession_def)
  have c: "pubKey exampleFactory = Some ?key"
    by (simp add: exampleFactory_def)
  have good: "?key (token exampleFactory) ''signed:secret''"
    by (simp add: exampleFactory_def)
  have bad: "\<not> ?key (token exampleFactory) ''forged''"
    by (simp add: exampleFactory_def)
  have w0: "written ?st ''10.0.0.1'' = []" "\<not> verified ?st ''10.0.0.1''"
    by (simp_all add: written_def verified_def exampleAgent_def exampleSession_def)
  have d: "finger (heap ?st ! dcDS (exampleSession False)) = ''fp''"
    "hostname (heap ?st ! dcDS (exampleSession False)) = ''sw-a''"
    by (simp_all add: exampleAgent_def exampleSession_def tempState_def newDeviceState_def)
  from CheckFingerprint_spec [OF a b c, of "''signed:secret''" "''0.12''" True] good
  have g: "verified (step exampleFactory ''0.12'' (HubMessage ''10.0.0.1'' (CheckFingerprint ''signed:secret'' True)) ?st) ''10.0.0.1''"
    "written (step exampleFactory ''0.12'' (HubMessage ''10.0.0.1'' (CheckFingerprint ''signed:secret'' True)) ?st) ''10.0.0.1''
       = [FingerprintFrame \<lparr>Fingerprint = ''fp'', frHostname = ''sw-a''\<rparr>]"
    unfolding w0 d by simp_all
  from CheckFingerprint_spec [OF a b c, of "''forged''" "''0.12''" True] bad
  have f: "step exampleFactory ''0.12'' (HubMessage ''10.0.0.1'' (CheckFingerprint ''forged'' True)) ?st = ?st"
    by blast
  from a b c g f w0 show ?thesis by blast
qed

subsection \<open>Data delivery\<close>

lemma update_not_Nil: "AList.update k v al \<noteq> []"
  by (cases al) auto

lemma foldl_update_not_Nil:
  "acc \<noteq> [] \<Longrightarrow> foldl (\<lambda>dst kv. AList.update (fst kv) (snd kv) dst) acc src \<noteq> []"
  by (induction src arbitrary: acc) (simp_all add: update_not_Nil)

lemma copyMap_Nil_iff: "copyMap src = [] \<longleftrightarrow> src = []"
proof (cases src)
  case Nil
  then show ?thesis by (simp add: copyMap_def)
next
  case (Cons kv rest)
  then show ?thesis
    using foldl_update_not_Nil [of "AList.update (fst kv) (snd kv) []" rest]
    by (simp add: copyMap_def)
qed

lemma send_temperatures_only:
  "send v ds dc =
     (if Conn dc \<and> hubVerified dc \<and> lastTemps ds \<noteq> []
      then sendMessage (DataFrame (buildCombinedData v ds)) dc else dc)"
  by (simp add: send_def Let_def buildCombinedData_def copyMap_Nil_iff)

text \<open>
  C3: the claim that a verified session answers GetData whenever one of the seven
  category maps has an entry does not hold of the code, which looks at the temperatures
  only (\<open>send_temperatures_only\<close>). Evaluated here: a verified, connected session whose
  device has a humidity reading and no temperature writes nothing on GetData.
\<close>

theorem GetData_humidity_only_dropped:
  "lastHumidity humidityState \<noteq> []
   \<and> verified (exampleAgent humidityState True) ''10.0.0.1''
   \<and> written (step exampleFactory ''0.12'' (HubMessage ''10.0.0.1'' GetData)
               (exampleAgent humidityState True)) ''10.0.0.1'' = []"
  by (simp add: humidityState_def newDeviceState_def verified_def written_def exampleAgent_def
        exampleSession_def exampleFactory_def onSession_def send_temperatures_only)

subsection \<open>The session map\<close>

text \<open>
  C10, as stated, fails for an IP the registry does not know: \<open>Notify\<close> creates no
  session for it.
\<close>

theorem Notify_unregistered_counterexample:
  "conns (Notify ''10.0.0.9'' NewAgent) ''10.0.0.9'' = None"
  by (simp add: Notify_def NewAgent_def)

text \<open>
  C10, amended: after \<open>Notify\<close> the session map has a session for the IP exactly if it had
  one before or the registry has a state for the IP. Without a session and with a state
  at address \<open>a\<close>, the new session bound to \<open>a\<close> is inserted; with a session, or without a
  state, the agent is unchanged; a second \<open>Notify\<close> changes nothing.
\<close>

theorem Notify_spec:
  "(conns (Notify i st) i \<noteq> None \<longleftrightarrow> conns st i \<noteq> None \<or> devices st i \<noteq> None)
   \<and> (conns st i = None \<longrightarrow>
        (\<forall>a. devices st i = Some a \<longrightarrow> conns (Notify i st) = (conns st)(i \<mapsto> newSession i a)))
   \<and> (conns st i \<noteq> None \<or> devices st i = None \<longrightarrow> Notify i st = st)
   \<and> Notify i (Notify i st) = Notify i st"
  by (auto simp add: Notify_def newSession_def split: option.splits)

text \<open>The theorem at a registered IP without a session and at an unregistered IP.\<close>

theorem Notify_spec_witness:
  "conns (NewAgent\<lparr>heap := [tempState], devices := [''10.0.0.1'' \<mapsto> 0]\<rparr>) ''10.0.0.1'' = None
   \<and> devices (NewAgent\<lparr>heap := [tempState], devices := [''10.0.0.1'' \<mapsto> 0]\<rparr>) ''10.0.0.1'' = Some 0
   \<and> conns (Notify ''10.0.0.1'' (NewAgent\<lparr>heap := [tempState], devices := [''10.0.0.1'' \<mapsto> 0]\<rparr>))
       = [''10.0.0.1'' \<mapsto> newSession ''10.0.0.1'' 0]
   \<and> devices NewAgent ''10.0.0.9'' = None
   \<and> Notify ''10.0.0.9'' NewAgent = NewAgent"
proof -
  let ?st = "NewAgent\<lparr>heap := [tempState], devices := [''10.0.0.1'' \<mapsto> 0]\<rparr>"
  have a: "conns ?st ''10.0.0.1'' = None" "devices ?st ''10.0.0.1'' = Some 0"
    "conns ?st = Map.empty"
    by (simp_all add: NewAgent_def)
  have b: "devices NewAgent ''10.0.0.9'' = None"
    by (simp add: NewAgent_def)
  from Notify_spec [of "''10.0.0.1''" ?st] a
  have c: "conns (Notify ''10.0.0.1'' ?st) = [''10.0.0.1'' \<mapsto> newSession ''10.0.0.1'' 0]"
    by simp
  from Notify_spec [of "''10.0.0.9''" NewAgent] b
  have d: "Notify ''10.0.0.9'' NewAgent = NewAgent"
    by blast
  from a b c d show ?thesis by blast
qed


subsection \<open>Poll loops\<close>

lemma loopsOf_cong: "loops st' = loops st \<Longrightarrow> loopsOf st' j = loopsOf st j"
  by (simp add: loopsOf_def)

lemma loopsOf_ensurePolling:
  "loopsOf (ensurePolling c i st) j
     = loopsOf st j + (if j = i \<and> pollRule 0 (Devices c) i \<noteq> None then 1 else 0)"
  by (auto simp add: ensurePolling_def loopsOf_def split: option.splits)

lemma handle_known:
  assumes "devices st i = Some a"
  shows "loops (handle c vars i st) = loops st" and "devices (handle c vars i st) = devices st"
  using assms by (simp_all add: handle_def Let_def)

lemma handle_unknown:
  assumes "devices st i = None"
  shows "loopsOf (handle c vars i st) j = loopsOf (ensurePolling c i st) j"
    and "devices (handle c vars i st) = (devices st)(i \<mapsto> length (heap st))"
  using assms by (simp_all add: handle_def Let_def loopsOf_def ensurePolling_def split: option.splits)

lemma pollOnce_fields:
  "loops (pollOnce c i n ok g st) = loops st" "devices (pollOnce c i n ok g st) = devices st"
  by (simp_all add: pollOnce_def)

lemma onSession_fields:
  "loops (onSession i f st) = loops st" "devices (onSession i f st) = devices st"
  by (simp_all add: onSession_def split: option.splits)

lemma loopsBounded_handle:
  assumes "loopsBounded st"
  shows "loopsBounded (handle c vars i st)"
proof (cases "devices st i")
  case None
  show ?thesis
    unfolding loopsBounded_def
  proof
    fix j
    have "loopsOf st j \<le> (if devices st j = None then 0 else 1)"
      using assms by (simp add: loopsBounded_def)
    then show "loopsOf (handle c vars i st) j
                 \<le> (if devices (handle c vars i st) j = None then 0 else 1)"
      using None by (auto simp add: handle_unknown [OF None] loopsOf_ensurePolling)
  qed
next
  case (Some a)
  have "loopsOf (handle c vars i st) j = loopsOf st j" for j
    by (rule loopsOf_cong) (simp add: handle_known [OF Some])
  then show ?thesis
    using assms by (simp add: loopsBounded_def handle_known [OF Some])
qed

lemma loopsBounded_same:
  "loopsBounded st \<Longrightarrow> loops st' = loops st \<Longrightarrow> devices st' = devices st \<Longrightarrow> loopsBounded st'"
  by (simp add: loopsBounded_def loopsOf_def)

lemma loopsBounded_step:
  assumes "loopsBounded st" and "guardedEvent e"
  shows "loopsBounded (step cf v e st)"
proof (cases e)
  case (Trap vars i)
  then show ?thesis using assms by (simp add: loopsBounded_handle)
next
  case (PollPass i n ok g)
  then show ?thesis
    using assms by (auto intro: loopsBounded_same simp add: pollOnce_fields)
next
  case (Register nip host)
  then show ?thesis using assms by simp
next
  case (NotifyCall i)
  then show ?thesis using assms by (auto intro: loopsBounded_same)
next
  case (EnsurePollingCall i)
  then show ?thesis using assms by simp
next
  case (ConnectRun i d)
  then show ?thesis
    using assms by (auto intro: loopsBounded_same split: option.splits)
next
  case (HubMessage i m)
  then show ?thesis
    using assms by (auto intro: loopsBounded_same simp add: onSession_fields split: option.splits)
next
  case (HubPing i)
  then show ?thesis
    using assms by (auto intro: loopsBounded_same simp add: onSession_fields)
next
  case (HubClose i)
  then show ?thesis
    using assms by (auto intro: loopsBounded_same simp add: onSession_fields)
qed

lemma loopsBounded_run:
  "loopsBounded st \<Longrightarrow> list_all guardedEvent evs \<Longrightarrow> loopsBounded (run cf v evs st)"
  unfolding run_def
  by (induction evs arbitrary: st) (simp_all add: loopsBounded_step)

lemma loopsBounded_NewAgent: "loopsBounded NewAgent"
  by (simp add: loopsBounded_def NewAgent_def loopsOf_def)

text \<open>
  C9, as stated, fails: two direct calls of \<open>ensurePolling\<close> for one IP start two loops.
\<close>

theorem ensurePolling_twice_counterexample:
  "\<not> loopsOf (run exampleFactory ''0.12''
                 [EnsurePollingCall ''10.0.0.1'', EnsurePollingCall ''10.0.0.1''] NewAgent)
        ''10.0.0.1'' \<le> 1"
  by (simp add: run_def ensurePolling_def exampleFactory_def exampleConfig_def matches_def
        NewAgent_def loopsOf_def)

text \<open>
  C9, amended: each call of \<open>ensurePolling\<close> starts exactly one more loop for its IP when
  a polling rule matches the IP and none otherwise; and after any sequence of traps,
  poll passes, notifications, connection attempts and hub frames on a new agent, at most
  one poll loop runs per IP.
\<close>

theorem ensurePolling_spec:
  "loopsOf (ensurePolling c i st) j
     = loopsOf st j + (if j = i \<and> pollRule 0 (Devices c) i \<noteq> None then 1 else 0)
   \<and> (list_all guardedEvent evs \<longrightarrow> loopsOf (run cf v evs NewAgent) j \<le> 1)"
proof -
  have "loopsOf (run cf v evs NewAgent) j \<le> 1" if "list_all guardedEvent evs"
  proof -
    have "loopsBounded (run cf v evs NewAgent)"
      using loopsBounded_NewAgent that by (rule loopsBounded_run)
    then have "loopsOf (run cf v evs NewAgent) j
                 \<le> (if devices (run cf v evs NewAgent) j = None then 0 else 1)"
      by (simp add: loopsBounded_def)
    then show ?thesis by (simp split: if_splits)
  qed
  then show ?thesis by (simp add: loopsOf_ensurePolling)
qed

text \<open>The theorem at two traps and a notification from one IP: one loop.\<close>

theorem ensurePolling_spec_witness:
  "list_all guardedEvent [Trap [] ''10.0.0.1'', Trap [] ''10.0.0.1'', NotifyCall ''10.0.0.1'']
   \<and> loopsOf (run exampleFactory ''0.12''
                [Trap [] ''10.0.0.1'', Trap [] ''10.0.0.1'', NotifyCall ''10.0.0.1''] NewAgent)
        ''10.0.0.1'' \<le> 1
   \<and> loopsOf (run exampleFactory ''0.12''
                [Trap [] ''10.0.0.1'', Trap [] ''10.0.0.1'', NotifyCall ''10.0.0.1''] NewAgent)
        ''10.0.0.1'' = 1"
proof -
  let ?evs = "[Trap [] ''10.0.0.1'', Trap [] ''10.0.0.1'', NotifyCall ''10.0.0.1'']"
  have g: "list_all guardedEvent ?evs" by simp
  from ensurePolling_spec [where c = exampleConfig and i = "''10.0.0.1''" and st = NewAgent
      and j = "''10.0.0.1''" and evs = ?evs and cf = exampleFactory and v = "''0.12''"] g
  have le: "loopsOf (run exampleFactory ''0.12'' ?evs NewAgent) ''10.0.0.1'' \<le> 1"
    by blast
  have eq: "loopsOf (run exampleFactory ''0.12'' ?evs NewAgent) ''10.0.0.1'' = 1"
    by (simp add: run_def handle_def Let_def ensurePolling_def Notify_def sysNameOf_def
          exampleFactory_def exampleConfig_def matches_def NewAgent_def loopsOf_def)
  from g le eq show ?thesis by blast
qed


subsection \<open>The fingerprint of a registered device\<close>

lemma finger_setMetric [simp]: "finger (setMetric c n x ds) = finger ds"
  by (simp add: setMetric_def Let_def)

lemma storeMetric_heap [simp]:
  "length (heap (storeMetric a om f st)) = length (heap st)"
  "finger (heap (storeMetric a om f st) ! b) = finger (heap st ! b)"
proof -
  show "length (heap (storeMetric a om f st)) = length (heap st)"
    by (simp add: storeMetric_def)
  show "finger (heap (storeMetric a om f st) ! b) = finger (heap st ! b)"
  proof (cases "a < length (heap st)")
    case True
    then show ?thesis by (simp add: storeMetric_def nth_list_update)
  next
    case False
    then show ?thesis by (simp add: storeMetric_def list_update_beyond)
  qed
qed

lemma trapVar_heap [simp]:
  "length (heap (trapVar c i a st x)) = length (heap st)"
  "finger (heap (trapVar c i a st x) ! b) = finger (heap st ! b)"
  by (simp_all add: trapVar_def split: option.splits)

lemma foldl_trapVar_heap [simp]:
  "length (heap (foldl (trapVar c i a) st vars)) = length (heap st)"
  "finger (heap (foldl (trapVar c i a) st vars) ! b) = finger (heap st ! b)"
  by (induction vars arbitrary: st) simp_all

lemma pollVar_heap [simp]:
  "length (heap (pollVar c i g st x)) = length (heap st)"
  "finger (heap (pollVar c i g st x) ! b) = finger (heap st ! b)"
  by (simp_all add: pollVar_def split: option.splits)

lemma foldl_pollVar_heap [simp]:
  "length (heap (foldl (pollVar c i g) st es)) = length (heap st)"
  "finger (heap (foldl (pollVar c i g) st es) ! b) = finger (heap st ! b)"
  by (induction es arbitrary: st) simp_all

lemma fingerOf_same:
  assumes "devices st' = devices st"
    and "\<And>b. finger (heap st' ! b) = finger (heap st ! b)"
  shows "fingerOf st' j = fingerOf st j"
  using assms by (simp add: fingerOf_def split: option.splits)

lemma wfRegistry_same:
  "wfRegistry st \<Longrightarrow> devices st' = devices st \<Longrightarrow> length (heap st') = length (heap st)
     \<Longrightarrow> wfRegistry st'"
  by (simp add: wfRegistry_def)

lemma handle_keeps_fingerprint:
  assumes "wfRegistry st" and "devices st j = Some a"
  shows "fingerOf (handle c vars i st) j = fingerOf st j"
proof (cases "devices st i")
  case (Some b)
  then show ?thesis
    by (intro fingerOf_same) (simp_all add: handle_def Let_def)
next
  case None
  with assms have ne: "j \<noteq> i" by auto
  from assms have lt: "a < length (heap st)" by (simp add: wfRegistry_def)
  show ?thesis
    using None ne lt assms(2)
    by (simp add: handle_def Let_def fingerOf_def nth_append)
qed

lemma handle_wfRegistry:
  assumes "wfRegistry st"
  shows "wfRegistry (handle c vars i st)"
proof (cases "devices st i")
  case (Some b)
  then show ?thesis
    using assms by (auto intro: wfRegistry_same [of st] simp add: handle_def Let_def)
next
  case None
  then show ?thesis
    using assms by (auto simp add: handle_def Let_def wfRegistry_def less_Suc_eq)
qed

lemma guarded_step_keeps_fingerprint:
  assumes "wfRegistry st" and "guardedEvent e" and "devices st j = Some a"
  shows "fingerOf (step cf v e st) j = fingerOf st j"
proof (cases e)
  case (Trap vars i)
  then show ?thesis using assms by (simp add: handle_keeps_fingerprint)
next
  case (PollPass i n ok g)
  then show ?thesis by (auto intro!: fingerOf_same simp add: pollOnce_def)
next
  case (Register nip host)
  then show ?thesis using assms by simp
next
  case (NotifyCall i)
  then show ?thesis by (auto intro!: fingerOf_same)
next
  case (EnsurePollingCall i)
  then show ?thesis using assms by simp
next
  case (ConnectRun i d)
  then show ?thesis by (auto intro!: fingerOf_same split: option.splits)
next
  case (HubMessage i m)
  then show ?thesis by (auto intro!: fingerOf_same simp add: onSession_def split: option.splits)
next
  case (HubPing i)
  then show ?thesis by (auto intro!: fingerOf_same simp add: onSession_def split: option.splits)
next
  case (HubClose i)
  then show ?thesis by (auto intro!: fingerOf_same simp add: onSession_def split: option.splits)
qed

lemma fingerOf_EnsureDevice:
  "fingerOf (EnsureDevice c (Some i) host st) i = Some (deriveFingerprint i host [])"
  by (simp add: EnsureDevice_def Let_def fingerOf_def newDeviceState_def)

text \<open>
  C5: the claim that a registered IP keeps its fingerprint does hold of traps, poll
  passes, notifications and hub frames (\<open>guarded_step_keeps_fingerprint\<close>), and fails for
  explicit registration: \<open>EnsureDevice\<close> stores a new state whose fingerprint is derived
  from the hostname passed in, whatever state the IP had. Evaluated here: a trap gives
  10.0.0.1 the fingerprint of the template text, the registration that follows replaces
  it by the fingerprint of \<open>core-1-10.0.0.1\<close>.
\<close>

theorem EnsureDevice_replaces_fingerprint:
  "fingerOf (EnsureDevice c (Some i) host st) i = Some (deriveFingerprint i host [])
   \<and> fingerOf (run exampleFactory ''0.12'' [Trap [sysNameVar ''sw-a''] ''10.0.0.1''] NewAgent)
        ''10.0.0.1'' = Some (deriveFingerprint ''10.0.0.1'' ''sw-a'' ''snmp-%IP%'')
   \<and> fingerOf (run exampleFactory ''0.12''
                 [Trap [sysNameVar ''sw-a''] ''10.0.0.1'', Register (Some ''10.0.0.1'') ''core-1'']
                 NewAgent) ''10.0.0.1''
       = Some (deriveFingerprint ''10.0.0.1'' ''core-1'' [])"
proof -
  have b: "fingerOf (run exampleFactory ''0.12'' [Trap [sysNameVar ''sw-a''] ''10.0.0.1''] NewAgent)
        ''10.0.0.1'' = Some (deriveFingerprint ''10.0.0.1'' ''sw-a'' ''snmp-%IP%'')"
    by (simp add: run_def handle_def Let_def sysNameOf_def sysNameVar_def trapVar_def
          exampleFactory_def exampleConfig_def matches_def NewAgent_def fingerOf_def
          newDeviceState_def)
  have c: "fingerOf (run exampleFactory ''0.12''
                 [Trap [sysNameVar ''sw-a''] ''10.0.0.1'', Register (Some ''10.0.0.1'') ''core-1'']
                 NewAgent) ''10.0.0.1''
       = Some (deriveFingerprint ''10.0.0.1'' ''core-1'' [])"
    by (simp add: run_def fingerOf_EnsureDevice)
  from fingerOf_EnsureDevice b c show ?thesis by blast
qed


end
